theory Spec2Isabelle
  imports Complex_Main
begin

section \<open>Python values and exceptions\<close>

text \<open>
  The holiday service (\<^verbatim>\<open>holiday_query_mcp.py\<close>) and its remote client (\<^verbatim>\<open>workday.py\<close>)
  handle decoded JSON. A decoded JSON value is a Python object; \<^verbatim>\<open>None\<close> is \<open>JNull\<close>.
  A finite float is kept by its exact value.
\<close>

datatype py_error =
  TypeError | KeyError | ValueError | OverflowError | AttributeError

datatype json =
  JNull
  | JBool bool
  | JInt int
  | JFloat rat
  | JStr string
  | JArr "json list"
  | JObj "(string \<times> json) list"

text \<open>Truth value of an object (\<^verbatim>\<open>bool(x)\<close>, \<^verbatim>\<open>if x\<close>, \<^verbatim>\<open>not x\<close>).\<close>

fun py_truthy :: "json \<Rightarrow> bool" where
  "py_truthy JNull = False"
| "py_truthy (JBool b) = b"
| "py_truthy (JInt n) = (n \<noteq> 0)"
| "py_truthy (JFloat q) = (q \<noteq> 0)"
| "py_truthy (JStr s) = (s \<noteq> [])"
| "py_truthy (JArr xs) = (xs \<noteq> [])"
| "py_truthy (JObj kvs) = (kvs \<noteq> [])"

fun is_prefix :: "string \<Rightarrow> string \<Rightarrow> bool" where
  "is_prefix [] t = True"
| "is_prefix (a # s) [] = False"
| "is_prefix (a # s) (b # t) = (a = b \<and> is_prefix s t)"

fun is_substring :: "string \<Rightarrow> string \<Rightarrow> bool" where
  "is_substring s [] = (s = [])"
| "is_substring s (b # t) = (is_prefix s (b # t) \<or> is_substring s t)"

text \<open>\<^verbatim>\<open>s in v\<close> for a string \<open>s\<close>: key test on a dict, element test on a list,
  substring test on a string, \<^verbatim>\<open>TypeError\<close> on anything else.\<close>

fun py_contains :: "string \<Rightarrow> json \<Rightarrow> py_error + bool" where
  "py_contains s (JObj kvs) = Inr (map_of kvs s \<noteq> None)"
| "py_contains s (JArr xs) = Inr (JStr s \<in> set xs)"
| "py_contains s (JStr t) = Inr (is_substring s t)"
| "py_contains s v = Inl TypeError"

text \<open>\<^verbatim>\<open>v[s]\<close> for a string \<open>s\<close>: only a dict can be subscripted by a string.\<close>

fun py_getitem :: "json \<Rightarrow> string \<Rightarrow> py_error + json" where
  "py_getitem (JObj kvs) s = (case map_of kvs s of None \<Rightarrow> Inl KeyError | Some x \<Rightarrow> Inr x)"
| "py_getitem v s = Inl TypeError"

text \<open>Iteration (\<^verbatim>\<open>for item in v\<close>): a list gives its elements, a dict its keys, a
  string its characters; other objects are not iterable.\<close>

fun py_iter :: "json \<Rightarrow> py_error + json list" where
  "py_iter (JArr xs) = Inr xs"
| "py_iter (JObj kvs) = Inr (map (\<lambda>kv. JStr (fst kv)) kvs)"
| "py_iter (JStr s) = Inr (map (\<lambda>c. JStr [c]) s)"
| "py_iter v = Inl TypeError"

text \<open>A dict key must be hashable: lists and dicts are not.\<close>

fun py_hashable :: "json \<Rightarrow> bool" where
  "py_hashable (JArr xs) = False"
| "py_hashable (JObj kvs) = False"
| "py_hashable v = True"

text \<open>\<^verbatim>\<open>k == n\<close> for an integer \<open>n\<close>, as a dict lookup with an integer key decides it:
  \<^verbatim>\<open>True == 1\<close>, \<^verbatim>\<open>1.0 == 1\<close>, and a string never equals an integer.\<close>

fun py_eq_int :: "json \<Rightarrow> int \<Rightarrow> bool" where
  "py_eq_int (JInt k) n = (k = n)"
| "py_eq_int (JBool b) n = ((if b then 1 else 0) = n)"
| "py_eq_int (JFloat q) n = (q = of_int n)"
| "py_eq_int v n = False"


definition bind_err :: "'e + 'a \<Rightarrow> ('a \<Rightarrow> 'e + 'b) \<Rightarrow> 'e + 'b" where
  "bind_err r f = (case r of Inl e \<Rightarrow> Inl e | Inr x \<Rightarrow> f x)"

section \<open>Calendar dates (\<^verbatim>\<open>datetime.date\<close>)\<close>

record date =
  year :: int
  month :: int
  day :: int

definition is_leap :: "int \<Rightarrow> bool" where
  "is_leap y = (y mod 4 = 0 \<and> (y mod 100 \<noteq> 0 \<or> y mod 400 = 0))"

definition days_in_month :: "int \<Rightarrow> int \<Rightarrow> int" where
  "days_in_month y m =
     (if m = 2 then (if is_leap y then 29 else 28)
      else if m = 4 \<or> m = 6 \<or> m = 9 \<or> m = 11 then 30 else 31)"

definition days_before_year :: "int \<Rightarrow> int" where
  "days_before_year y = (y - 1) * 365 + (y - 1) div 4 - (y - 1) div 100 + (y - 1) div 400"

definition days_before_month :: "int \<Rightarrow> int \<Rightarrow> int" where
  "days_before_month y m =
     [0, 0, 31, 59, 90, 120, 151, 181, 212, 243, 273, 304, 334] ! nat m
       + (if m > 2 \<and> is_leap y then 1 else 0)"

definition toordinal :: "date \<Rightarrow> int" where
  "toordinal d = days_before_year (year d) + days_before_month (year d) (month d) + day d"

text \<open>\<^verbatim>\<open>date.weekday()\<close>: Monday is 0, Sunday is 6.\<close>

definition weekday :: "date \<Rightarrow> int" where
  "weekday d = (toordinal d + 6) mod 7"

text \<open>The dates a \<^verbatim>\<open>date\<close> object can hold: years 1 to 9999.\<close>

definition valid_date :: "date \<Rightarrow> bool" where
  "valid_date d =
     (1 \<le> year d \<and> year d \<le> 9999 \<and> 1 \<le> month d \<and> month d \<le> 12
      \<and> 1 \<le> day d \<and> day d \<le> days_in_month (year d) (month d))"

text \<open>The constructor \<^verbatim>\<open>date(y, m, d)\<close> raises \<^verbatim>\<open>ValueError\<close> out of range.\<close>

definition make_date :: "int \<Rightarrow> int \<Rightarrow> int \<Rightarrow> py_error + date" where
  "make_date y m d =
     (let dt = \<lparr>year = y, month = m, day = d\<rparr>
      in if valid_date dt then Inr dt else Inl ValueError)"

text \<open>\<^verbatim>\<open>a <= b\<close> on dates.\<close>

definition date_le :: "date \<Rightarrow> date \<Rightarrow> bool" where
  "date_le a b =
     (year a < year b \<or> (year a = year b \<and>
        (month a < month b \<or> (month a = month b \<and> day a \<le> day b))))"

definition date_less :: "date \<Rightarrow> date \<Rightarrow> bool" where
  "date_less a b =
     (year a < year b \<or> (year a = year b \<and>
        (month a < month b \<or> (month a = month b \<and> day a < day b))))"

text \<open>\<^verbatim>\<open>d + timedelta(days=1)\<close>: the next calendar day; past 9999-12-31 the
  addition raises \<^verbatim>\<open>OverflowError\<close>.\<close>

definition add_day :: "date \<Rightarrow> py_error + date" where
  "add_day d =
     (if day d < days_in_month (year d) (month d) then Inr (d\<lparr>day := day d + 1\<rparr>)
      else if month d < 12 then Inr \<lparr>year = year d, month = month d + 1, day = 1\<rparr>
      else if year d < 9999 then Inr \<lparr>year = year d + 1, month = 1, day = 1\<rparr>
      else Inl OverflowError)"

text \<open>
  \<^verbatim>\<open>d.strftime("%Y-%m-%d")\<close>. The C library writes \<^verbatim>\<open>%Y\<close> as the decimal number of the year
  without padding, so a year below 1000 has fewer than four digits (\<^verbatim>\<open>999-12-31\<close>); the
  month and the day have two digits each.
\<close>

definition digit :: "int \<Rightarrow> char" where
  "digit n = ''0123456789'' ! nat n"

definition pad2 :: "int \<Rightarrow> string" where
  "pad2 n = [digit (n div 10 mod 10), digit (n mod 10)]"

definition pad4 :: "int \<Rightarrow> string" where
  "pad4 n = [digit (n div 1000 mod 10), digit (n div 100 mod 10),
             digit (n div 10 mod 10), digit (n mod 10)]"

definition year_digits :: "int \<Rightarrow> string" where
  "year_digits y =
     (if y < 10 then [digit y]
      else if y < 100 then pad2 y
      else if y < 1000 then [digit (y div 100 mod 10), digit (y div 10 mod 10), digit (y mod 10)]
      else pad4 y)"

definition strftime :: "date \<Rightarrow> string" where
  "strftime d = year_digits (year d) @ ''-'' @ pad2 (month d) @ ''-'' @ pad2 (day d)"

text \<open>
  \<^verbatim>\<open>datetime.strptime(s, "%Y-%m-%d").date()\<close>. The format is matched as the library's
  regular expressions do: four digits for the year, one or two for the month
  (\<^verbatim>\<open>1[0-2]|0[1-9]|[1-9]\<close>) and the day (\<^verbatim>\<open>3[01]|[12]\d|0[1-9]|[1-9]| [1-9]\<close>), then the
  date is built by the constructor. \<open>None\<close> stands for the \<^verbatim>\<open>ValueError\<close> raised.
\<close>

definition digit_val :: "char \<Rightarrow> int option" where
  "digit_val c = map_of (zip ''0123456789'' [0, 1, 2, 3, 4, 5, 6, 7, 8, 9]) c"

fun parse_year :: "string \<Rightarrow> int option" where
  "parse_year [a, b, c, d] =
     (case (digit_val a, digit_val b, digit_val c, digit_val d) of
        (Some w, Some x, Some y, Some z) \<Rightarrow> Some (1000 * w + 100 * x + 10 * y + z)
      | _ \<Rightarrow> None)"
| "parse_year s = None"

fun parse_month :: "string \<Rightarrow> int option" where
  "parse_month [a] =
     (case digit_val a of Some x \<Rightarrow> (if 1 \<le> x then Some x else None) | None \<Rightarrow> None)"
| "parse_month [a, b] =
     (case (digit_val a, digit_val b) of
        (Some x, Some y) \<Rightarrow>
          (if 1 \<le> 10 * x + y \<and> 10 * x + y \<le> 12 then Some (10 * x + y) else None)
      | _ \<Rightarrow> None)"
| "parse_month s = None"

fun parse_day :: "string \<Rightarrow> int option" where
  "parse_day [a] =
     (case digit_val a of Some x \<Rightarrow> (if 1 \<le> x then Some x else None) | None \<Rightarrow> None)"
| "parse_day [a, b] =
     (if a = CHR '' '' then
        (case digit_val b of Some y \<Rightarrow> (if 1 \<le> y then Some y else None) | None \<Rightarrow> None)
      else
        (case (digit_val a, digit_val b) of
           (Some x, Some y) \<Rightarrow>
             (if 1 \<le> 10 * x + y \<and> 10 * x + y \<le> 31 then Some (10 * x + y) else None)
         | _ \<Rightarrow> None))"
| "parse_day s = None"

definition strptime :: "string \<Rightarrow> date option" where
  "strptime s =
     (let ys = takeWhile (\<lambda>c. c \<noteq> CHR ''-'') s;
          r1 = drop (length ys + 1) s;
          ms = takeWhile (\<lambda>c. c \<noteq> CHR ''-'') r1;
          ds = drop (length ms + 1) r1
      in if length ys < length s \<and> length ms < length r1 then
           (case (parse_year ys, parse_month ms, parse_day ds) of
              (Some y, Some m, Some d) \<Rightarrow>
                (case make_date y m d of Inl e \<Rightarrow> None | Inr dt \<Rightarrow> Some dt)
            | _ \<Rightarrow> None)
         else None)"

section \<open>The remote client (\<^verbatim>\<open>workday.py\<close>)\<close>

text \<open>\<^verbatim>\<open>WorkDayConfig\<close>: the endpoints and the credentials, read once at import.\<close>

record WorkDayConfig =
  open_plat :: string
  center_url :: string
  app_id :: string
  app_secret :: string

text \<open>
  What the program does not decide itself: whether \<^verbatim>\<open>import workday\<close> succeeded
  (\<open>HAS_API\<close>), the configuration, the transport, the JSON decoder and the local
  time zone. \<open>http_post n url robot_guid robot_secret\<close> is the text of the reply to the
  \<open>n\<close>-th request of the process when that request is this POST, \<open>None\<close> when
  \<^verbatim>\<open>requests\<close> raises a \<^verbatim>\<open>RequestException\<close> (no connection, a timeout, a status that is
  not 2xx); \<open>http_get n url y token\<close> likewise for the GET with its query year and its
  \<^verbatim>\<open>Authorization\<close> header. \<open>json_loads\<close> is \<^verbatim>\<open>json.loads\<close>, \<open>None\<close> for a
  \<^verbatim>\<open>JSONDecodeError\<close>. \<open>timestamp d\<close> is \<^verbatim>\<open>int(datetime.combine(d, midnight).timestamp())\<close>
  and \<open>fromtimestamp_weekday t\<close> is \<^verbatim>\<open>datetime.fromtimestamp(t).weekday()\<close>, both in local
  time, \<open>None\<close> when the call raises.
\<close>

record platform =
  HAS_API :: bool
  config :: WorkDayConfig
  http_post :: "nat \<Rightarrow> string \<Rightarrow> string \<Rightarrow> string \<Rightarrow> string option"
  http_get :: "nat \<Rightarrow> string \<Rightarrow> int \<Rightarrow> json \<Rightarrow> string option"
  json_loads :: "string \<Rightarrow> json option"
  timestamp :: "date \<Rightarrow> int option"
  fromtimestamp_weekday :: "int \<Rightarrow> int option"

text \<open>
  The state of the process: the number of HTTP requests issued so far and the two
  \<^verbatim>\<open>lru_cache\<close> tables, most recently used entry first.
\<close>

type_synonym token_key = "string \<times> string \<times> string"
type_synonym holiday_key = "int \<times> string \<times> string \<times> string \<times> string"

record state =
  net_calls :: nat
  token_cache :: "(token_key \<times> json) list"
  holiday_cache :: "(holiday_key \<times> json) list"

text \<open>\<^verbatim>\<open>functools.lru_cache\<close>: a hit moves the entry to the front; a miss stores the
  new result in front and keeps the \<open>maxsize\<close> most recent entries.\<close>

definition lru_touch :: "'k \<Rightarrow> 'v \<Rightarrow> ('k \<times> 'v) list \<Rightarrow> ('k \<times> 'v) list" where
  "lru_touch k v c = (k, v) # filter (\<lambda>kv. fst kv \<noteq> k) c"

definition lru_put :: "nat \<Rightarrow> 'k \<Rightarrow> 'v \<Rightarrow> ('k \<times> 'v) list \<Rightarrow> ('k \<times> 'v) list" where
  "lru_put maxsize k v c = take maxsize ((k, v) # filter (\<lambda>kv. fst kv \<noteq> k) c)"

text \<open>\<^verbatim>\<open>http_post_json\<close>: one request; the reply's text, or \<^verbatim>\<open>None\<close>.\<close>

definition http_post_json ::
  "platform \<Rightarrow> string \<Rightarrow> string \<Rightarrow> string \<Rightarrow> state \<Rightarrow> string option \<times> state" where
  "http_post_json env post_url robot_guid robot_secret st =
     (http_post env (net_calls st) post_url robot_guid robot_secret,
      st\<lparr>net_calls := Suc (net_calls st)\<rparr>)"

text \<open>
  The test \<^verbatim>\<open>if outer not in data or inner not in data[outer]: return None\<close> followed by
  \<^verbatim>\<open>return data[outer][inner]\<close>, which both fetch functions apply to a decoded reply.
\<close>

definition extract_nested :: "string \<Rightarrow> string \<Rightarrow> json \<Rightarrow> py_error + json" where
  "extract_nested outer inner data =
     bind_err (py_contains outer data) (\<lambda>has_outer.
       if \<not> has_outer then Inr JNull
       else bind_err (py_getitem data outer) (\<lambda>x.
         bind_err (py_contains inner x) (\<lambda>has_inner.
           if \<not> has_inner then Inr JNull
           else py_getitem x inner)))"

text \<open>\<^verbatim>\<open>except (..., KeyError)\<close>: a \<^verbatim>\<open>KeyError\<close> becomes \<^verbatim>\<open>None\<close>, any other exception of
  the decoded-reply test goes on to the caller.\<close>

definition catch_KeyError :: "py_error + json \<Rightarrow> py_error + json" where
  "catch_KeyError r = (case r of Inl KeyError \<Rightarrow> Inr JNull | _ \<Rightarrow> r)"

text \<open>The body of \<^verbatim>\<open>get_access_token\<close>, run on a cache miss.\<close>

definition get_access_token_body ::
  "platform \<Rightarrow> string \<Rightarrow> string \<Rightarrow> string \<Rightarrow> state \<Rightarrow> (py_error + json) \<times> state" where
  "get_access_token_body env center app secret st =
     (if app = [] then (Inr JNull, st)
      else
        (let url = center @ ''/api/auth/v1/robot/GetRobotAccessToken'';
             (response, st1) = http_post_json env url app secret st
         in case response of
              None \<Rightarrow> (Inr JNull, st1)
            | Some text \<Rightarrow>
                if text = [] then (Inr JNull, st1)
                else
                  (case json_loads env text of
                     None \<Rightarrow> (Inr JNull, st1)
                   | Some token_data \<Rightarrow>
                       (catch_KeyError (extract_nested ''data'' ''access_token'' token_data),
                        st1))))"

text \<open>\<^verbatim>\<open>@lru_cache(maxsize=1) get_access_token\<close>: a returned value is cached, whatever it
  is; an exception is not.\<close>

definition get_access_token ::
  "platform \<Rightarrow> string \<Rightarrow> string \<Rightarrow> string \<Rightarrow> state \<Rightarrow> (py_error + json) \<times> state" where
  "get_access_token env center app secret st =
     (case map_of (token_cache st) (center, app, secret) of
        Some v \<Rightarrow> (Inr v, st\<lparr>token_cache := lru_touch (center, app, secret) v (token_cache st)\<rparr>)
      | None \<Rightarrow>
          (case get_access_token_body env center app secret st of
             (Inl e, st1) \<Rightarrow> (Inl e, st1)
           | (Inr v, st1) \<Rightarrow>
               (Inr v, st1\<lparr>token_cache := lru_put 1 (center, app, secret) v (token_cache st1)\<rparr>)))"

text \<open>The body of \<^verbatim>\<open>get_holiday_data\<close>. The token is fetched outside the \<^verbatim>\<open>try\<close>.\<close>

definition get_holiday_data_body ::
  "platform \<Rightarrow> int \<Rightarrow> string \<Rightarrow> string \<Rightarrow> string \<Rightarrow> string \<Rightarrow> state
     \<Rightarrow> (py_error + json) \<times> state" where
  "get_holiday_data_body env yr base center app secret st =
     (let api_url = base @ ''/api/cal/holiday/list''
      in case get_access_token env center app secret st of
           (Inl e, st1) \<Rightarrow> (Inl e, st1)
         | (Inr access_token, st1) \<Rightarrow>
             if \<not> py_truthy access_token then (Inr JNull, st1)
             else
               (let st2 = st1\<lparr>net_calls := Suc (net_calls st1)\<rparr>
                in case http_get env (net_calls st1) api_url yr access_token of
                     None \<Rightarrow> (Inr JNull, st2)
                   | Some text \<Rightarrow>
                       (case json_loads env text of
                          None \<Rightarrow> (Inr JNull, st2)
                        | Some data \<Rightarrow>
                            (catch_KeyError (extract_nested ''data'' ''business_holiday'' data),
                             st2))))"

text \<open>\<^verbatim>\<open>@lru_cache(maxsize=10) get_holiday_data\<close>.\<close>

definition get_holiday_data ::
  "platform \<Rightarrow> int \<Rightarrow> string \<Rightarrow> string \<Rightarrow> string \<Rightarrow> string \<Rightarrow> state
     \<Rightarrow> (py_error + json) \<times> state" where
  "get_holiday_data env yr base center app secret st =
     (case map_of (holiday_cache st) (yr, base, center, app, secret) of
        Some v \<Rightarrow>
          (Inr v, st\<lparr>holiday_cache :=
                       lru_touch (yr, base, center, app, secret) v (holiday_cache st)\<rparr>)
      | None \<Rightarrow>
          (case get_holiday_data_body env yr base center app secret st of
             (Inl e, st1) \<Rightarrow> (Inl e, st1)
           | (Inr v, st1) \<Rightarrow>
               (Inr v, st1\<lparr>holiday_cache :=
                            lru_put 10 (yr, base, center, app, secret) v (holiday_cache st1)\<rparr>)))"

text \<open>
  The dict comprehension \<^verbatim>\<open>{item["date"]: item["is_work_day"] for item in holiday_data}\<close>:
  the entries in the order they are stored, the latest first, so that the first match
  of a lookup is the value the dict holds.
\<close>

fun build_holiday_dict :: "json list \<Rightarrow> (json \<times> json) list \<Rightarrow> py_error + (json \<times> json) list" where
  "build_holiday_dict [] acc = Inr acc"
| "build_holiday_dict (item # items) acc =
     bind_err (py_getitem item ''date'') (\<lambda>k.
       bind_err (py_getitem item ''is_work_day'') (\<lambda>v.
         if py_hashable k then build_holiday_dict items ((k, v) # acc)
         else Inl TypeError))"

text \<open>\<^verbatim>\<open>timestamp in holiday_dict\<close> and \<^verbatim>\<open>holiday_dict[timestamp]\<close>.\<close>

fun dict_find_int :: "(json \<times> json) list \<Rightarrow> int \<Rightarrow> json option" where
  "dict_find_int [] n = None"
| "dict_find_int ((k, v) # kvs) n = (if py_eq_int k n then Some v else dict_find_int kvs n)"

text \<open>\<^verbatim>\<open>get_work_day\<close> after the fetch, for a \<open>tag\<close> other than \<^verbatim>\<open>"list"\<close>. A timestamp
  that \<^verbatim>\<open>datetime.fromtimestamp\<close> rejects raises; \<open>OverflowError\<close> stands for that
  exception, which no caller tells apart from another.\<close>

definition work_day_lookup :: "platform \<Rightarrow> json \<Rightarrow> int \<Rightarrow> py_error + json" where
  "work_day_lookup env holiday_data ts =
     bind_err (py_iter holiday_data) (\<lambda>items.
       bind_err (build_holiday_dict items []) (\<lambda>holiday_dict.
         case dict_find_int holiday_dict ts of
           Some v \<Rightarrow> Inr v
         | None \<Rightarrow>
             (case fromtimestamp_weekday env ts of
                None \<Rightarrow> Inl OverflowError
              | Some wd \<Rightarrow> Inr (JBool (wd < 5)))))"

definition get_work_day ::
  "platform \<Rightarrow> int \<Rightarrow> int \<Rightarrow> string option \<Rightarrow> string option \<Rightarrow> state
     \<Rightarrow> (py_error + json) \<times> state" where
  "get_work_day env yr ts base_url tag st =
     (let base = (case base_url of None \<Rightarrow> open_plat (config env) | Some b \<Rightarrow> b)
      in case get_holiday_data env yr base (center_url (config env)) (app_id (config env))
                (app_secret (config env)) st of
           (Inl e, st1) \<Rightarrow> (Inl e, st1)
         | (Inr holiday_data, st1) \<Rightarrow>
             if holiday_data = JNull then (Inr JNull, st1)
             else if tag = Some ''list'' then (Inr holiday_data, st1)
             else (work_day_lookup env holiday_data ts, st1))"

text \<open>
  \<^verbatim>\<open>is_workday\<close> on a \<^verbatim>\<open>date\<close>: every exception of its body is caught and answered
  \<^verbatim>\<open>False\<close>; a fetch that returned \<^verbatim>\<open>None\<close> is answered by the day of the week.
\<close>

definition is_workday :: "platform \<Rightarrow> date \<Rightarrow> state \<Rightarrow> bool \<times> state" where
  "is_workday env d st =
     (case timestamp env d of
        None \<Rightarrow> (False, st)
      | Some ts \<Rightarrow>
          (case get_work_day env (year d) ts None None st of
             (Inl e, st1) \<Rightarrow> (False, st1)
           | (Inr result, st1) \<Rightarrow>
               if result = JNull then (weekday d < 5, st1)
               else (py_truthy result, st1)))"

section \<open>The holiday service (\<^verbatim>\<open>holiday_query_mcp.py\<close>)\<close>

text \<open>
  The labels \<^verbatim>\<open>is_holiday\<close> returns as its second component. The source writes them as
  Chinese text: "tiaoxiu (xu shangban)" (adjusted, a working day), "gongzuori" (working
  day), "zhoumo" (weekend), "xiuxiri" (rest day) and "fading jiejiari" (statutory
  holiday).
\<close>

datatype day_kind =
  AdjustedWorkday | WorkingDay | Weekend | SpecialRestDay | StatutoryHoliday

text \<open>\<^verbatim>\<open>_init_2026_holidays\<close>: the entries of the dict literal, in the order written.\<close>

definition holidays_2026 :: "(string \<times> bool) list" where
  "holidays_2026 =
     [(''2026-01-01'', True),
      (''2026-02-02'', True),
      (''2026-02-03'', True),
      (''2026-02-04'', True),
      (''2026-02-05'', True),
      (''2026-02-06'', True),
      (''2026-02-07'', True),
      (''2026-02-08'', True),
      (''2026-02-28'', False),
      (''2026-04-04'', True),
      (''2026-04-05'', True),
      (''2026-04-06'', True),
      (''2026-05-01'', True),
      (''2026-05-02'', True),
      (''2026-05-03'', True),
      (''2026-05-04'', True),
      (''2026-05-05'', True),
      (''2026-06-20'', True),
      (''2026-06-21'', True),
      (''2026-06-22'', True),
      (''2026-09-26'', True),
      (''2026-09-27'', True),
      (''2026-09-28'', True),
      (''2026-10-01'', True),
      (''2026-10-02'', True),
      (''2026-10-03'', True),
      (''2026-10-04'', True),
      (''2026-10-05'', True),
      (''2026-10-06'', True),
      (''2026-10-07'', True)]"

text \<open>\<^verbatim>\<open>self.holidays\<close>: year to (date string to flag); only 2026 is filled in.\<close>

definition HolidayData_holidays :: "int \<Rightarrow> (string \<Rightarrow> bool option) option" where
  "HolidayData_holidays yr = (if yr = 2026 then Some (map_of holidays_2026) else None)"

text \<open>The local part of \<^verbatim>\<open>HolidayData.is_holiday\<close>: the table, then the weekend test.\<close>

definition local_is_holiday :: "date \<Rightarrow> bool \<times> day_kind" where
  "local_is_holiday date_obj =
     (let date_str = strftime date_obj; yr = year date_obj
      in case (case HolidayData_holidays yr of None \<Rightarrow> None | Some t \<Rightarrow> t date_str) of
           Some is_holiday \<Rightarrow>
             if is_holiday then (True, StatutoryHoliday) else (False, AdjustedWorkday)
         | None \<Rightarrow>
             if weekday date_obj = 5 \<or> weekday date_obj = 6 then (True, Weekend)
             else (False, WorkingDay))"

text \<open>\<^verbatim>\<open>api_is_workday\<close> is \<^verbatim>\<open>workday.is_workday\<close>, called inside a \<^verbatim>\<open>try\<close>: the call either
  returns a truth value or raises.\<close>

definition api_is_workday :: "platform \<Rightarrow> date \<Rightarrow> state \<Rightarrow> (py_error + bool) \<times> state" where
  "api_is_workday env d st = (case is_workday env d st of (b, st1) \<Rightarrow> (Inr b, st1))"

text \<open>\<^verbatim>\<open>HolidayData.is_holiday\<close>.\<close>

definition HolidayData_is_holiday ::
  "platform \<Rightarrow> date \<Rightarrow> state \<Rightarrow> (bool \<times> day_kind) \<times> state" where
  "HolidayData_is_holiday env date_obj st =
     (if HAS_API env then
        (case api_is_workday env date_obj st of
           (Inr is_work_day, st1) \<Rightarrow>
             if is_work_day then
               (if weekday date_obj = 5 \<or> weekday date_obj = 6
                then ((False, AdjustedWorkday), st1)
                else ((False, WorkingDay), st1))
             else
               (if weekday date_obj = 5 \<or> weekday date_obj = 6
                then ((True, Weekend), st1)
                else ((True, SpecialRestDay), st1))
         | (Inl e, st1) \<Rightarrow> (local_is_holiday date_obj, st1))
      else (local_is_holiday date_obj, st))"

text \<open>
  The loop of \<^verbatim>\<open>get_holidays\<close> over the days from \<open>current_date\<close> to \<open>end_date\<close>. It
  returns the exception that stopped it, if any, with the list as appended to so far.
\<close>

function year_loop ::
  "platform \<Rightarrow> date \<Rightarrow> date \<Rightarrow> string list \<Rightarrow> state \<Rightarrow> py_error option \<times> string list \<times> state" where
  "year_loop env current_date end_date holidays st =
     (if date_le current_date end_date then
        (let r = HolidayData_is_holiday env current_date st;
             holidays1 = (if fst (fst r) then holidays @ [strftime current_date] else holidays)
         in case add_day current_date of
              Inl e \<Rightarrow> (Some e, holidays1, snd r)
            | Inr next_date \<Rightarrow> year_loop env next_date end_date holidays1 (snd r))
      else (None, holidays, st))"
  by pat_completeness auto
termination
proof (relation "measures
    [\<lambda>(env, c, e, h, s). nat (year e + 1 - year c),
     \<lambda>(env, c, e, h, s). nat (12 - month c),
     \<lambda>(env, c, e, h, s). nat (days_in_month (year c) (month c) - day c)]")
  show "wf (measures
    [\<lambda>(env, c, e, h, s). nat (year e + 1 - year c),
     \<lambda>(env, c, e, h, s). nat (12 - month c),
     \<lambda>(env, c, e, h, s :: state). nat (days_in_month (year c) (month c) - day c)])"
    by simp
next
  fix env :: platform and current_date end_date :: date and holidays :: "string list"
    and st :: state and x xa x2
  assume le: "date_le current_date end_date" and nxt: "add_day current_date = Inr x2"
  have y: "year current_date \<le> year end_date"
    using le by (auto simp: date_le_def)
  show "((env, x2, end_date, xa, snd x), env, current_date, end_date, holidays, st)
      \<in> measures
    [\<lambda>(env, c, e, h, s). nat (year e + 1 - year c),
     \<lambda>(env, c, e, h, s). nat (12 - month c),
     \<lambda>(env, c, e, h, s). nat (days_in_month (year c) (month c) - day c)]"
    using nxt y by (auto simp: add_day_def split: if_splits)
qed

text \<open>The two dates of the range are built first; either constructor can raise.\<close>

definition enumerate_year ::
  "platform \<Rightarrow> int \<Rightarrow> string list \<Rightarrow> state \<Rightarrow> py_error option \<times> string list \<times> state" where
  "enumerate_year env yr holidays st =
     (case make_date yr 1 1 of
        Inl e \<Rightarrow> (Some e, holidays, st)
      | Inr start_date \<Rightarrow>
          (case make_date yr 12 31 of
             Inl e \<Rightarrow> (Some e, holidays, st)
           | Inr end_date \<Rightarrow> year_loop env start_date end_date holidays st))"

text \<open>The second loop of \<^verbatim>\<open>get_holidays\<close>, outside any \<^verbatim>\<open>try\<close>: an exception leaves the
  method.\<close>

definition local_enumeration ::
  "platform \<Rightarrow> int \<Rightarrow> string list \<Rightarrow> state \<Rightarrow> (py_error + string list) \<times> state" where
  "local_enumeration env yr holidays st =
     (case enumerate_year env yr holidays st of
        (None, hs, st1) \<Rightarrow> (Inr hs, st1)
      | (Some e, hs, st1) \<Rightarrow> (Inl e, st1))"

text \<open>\<^verbatim>\<open>HolidayData.get_holidays\<close>. The list \<open>holidays\<close> is one object: what the first loop
  appended before an exception is still in it when the second loop starts.\<close>

definition HolidayData_get_holidays ::
  "platform \<Rightarrow> int \<Rightarrow> state \<Rightarrow> (py_error + string list) \<times> state" where
  "HolidayData_get_holidays env yr st =
     (if HAS_API env then
        (case get_holiday_data env yr (open_plat (config env)) (center_url (config env))
                (app_id (config env)) (app_secret (config env)) st of
           (Inl e, st1) \<Rightarrow> local_enumeration env yr [] st1
         | (Inr holiday_data, st1) \<Rightarrow>
             if py_truthy holiday_data then
               (case enumerate_year env yr [] st1 of
                  (None, hs, st2) \<Rightarrow> (Inr hs, st2)
                | (Some e, hs, st2) \<Rightarrow> local_enumeration env yr hs st2)
             else local_enumeration env yr [] st1)
      else local_enumeration env yr [] st)"

subsection \<open>\<^verbatim>\<open>validate_date_status\<close>\<close>








section \<open>Concrete platforms for the worked examples\<close>

text \<open>A time zone without offset: midnight of day \<open>d\<close> is \<open>86400\<close> seconds times the
  days since 1970-01-01, which was a Thursday.\<close>

definition utc_timestamp :: "date \<Rightarrow> int option" where
  "utc_timestamp d = Some ((toordinal d - 719163) * 86400)"

definition utc_weekday :: "int \<Rightarrow> int option" where
  "utc_weekday t = Some ((t div 86400 + 3) mod 7)"

definition demo_config :: WorkDayConfig where
  "demo_config = \<lparr>open_plat = ''http://open-plat.tpo.xzoa.com'',
                  center_url = ''http://auth-center.tpo.xzoa.com'',
                  app_id = ''robot'', app_secret = ''secret''\<rparr>"

text \<open>\<open>env_absent\<close>: the import of \<^verbatim>\<open>workday\<close> failed. \<open>env_offline\<close>: the module is
  there and every request fails.\<close>

definition env_absent :: platform where
  "env_absent = \<lparr>HAS_API = False, config = demo_config,
     http_post = (\<lambda>n url g s. None), http_get = (\<lambda>n url y t. None),
     json_loads = (\<lambda>s. None), timestamp = utc_timestamp,
     fromtimestamp_weekday = utc_weekday\<rparr>"

definition env_offline :: platform where
  "env_offline = env_absent\<lparr>HAS_API := True\<rparr>"

text \<open>
  \<open>env_online records\<close>: both endpoints answer. The token reply is the text \<open>T\<close>,
  decoded as \<^verbatim>\<open>{"data": {"access_token": "tok"}}\<close>; the holiday reply is the text \<open>H\<close>,
  decoded as \<^verbatim>\<open>{"data": {"business_holiday": records}}\<close>.
\<close>

definition demo_loads :: "json list \<Rightarrow> string \<Rightarrow> json option" where
  "demo_loads records s =
     (if s = ''T'' then Some (JObj [(''data'', JObj [(''access_token'', JStr ''tok'')])])
      else if s = ''H'' then Some (JObj [(''data'', JObj [(''business_holiday'', JArr records)])])
      else None)"

definition env_online :: "json list \<Rightarrow> platform" where
  "env_online records = \<lparr>HAS_API = True, config = demo_config,
     http_post = (\<lambda>n url g s. Some ''T''), http_get = (\<lambda>n url y t. Some ''H''),
     json_loads = demo_loads records, timestamp = utc_timestamp,
     fromtimestamp_weekday = utc_weekday\<rparr>"

definition st0 :: state where
  "st0 = \<lparr>net_calls = 0, token_cache = [], holiday_cache = []\<rparr>"

text \<open>A record of the remote list is well formed for \<^verbatim>\<open>get_work_day\<close> with a string date
  when it is an object with a string under \<^verbatim>\<open>date\<close> and some value under
  \<^verbatim>\<open>is_work_day\<close>.\<close>

fun string_dated_record :: "json \<Rightarrow> bool" where
  "string_dated_record (JObj kvs) =
     (case map_of kvs ''date'' of
        Some (JStr s) \<Rightarrow> map_of kvs ''is_work_day'' \<noteq> None
      | _ \<Rightarrow> False)"
| "string_dated_record v = False"


fun is_JStr :: "json \<Rightarrow> bool" where
  "is_JStr (JStr s) = True"
| "is_JStr v = False"




text \<open>
  The calendar of a year, to state what \<^verbatim>\<open>get_holidays\<close> enumerates: the days of a month,
  the days of a year in calendar order, and the days from a date to the end of its year.
\<close>

definition month_days :: "int \<Rightarrow> int \<Rightarrow> date list" where
  "month_days y m = map (\<lambda>k. \<lparr>year = y, month = m, day = k\<rparr>) [1..days_in_month y m]"

definition year_days :: "int \<Rightarrow> date list" where
  "year_days y = concat (map (month_days y) [1..12])"

definition rest_of_year :: "date \<Rightarrow> date list" where
  "rest_of_year c =
     map (\<lambda>k. \<lparr>year = year c, month = month c, day = k\<rparr>)
       [day c..days_in_month (year c) (month c)]
     @ concat (map (month_days (year c)) [month c + 1..12])"

text \<open>Classifying a list of days in order, the state passed along: the days classified
  as holidays, and the state at the end.\<close>

fun holiday_dates :: "platform \<Rightarrow> date list \<Rightarrow> state \<Rightarrow> date list" where
  "holiday_dates env [] st = []"
| "holiday_dates env (d # ds) st =
     (if fst (fst (HolidayData_is_holiday env d st))
      then d # holiday_dates env ds (snd (HolidayData_is_holiday env d st))
      else holiday_dates env ds (snd (HolidayData_is_holiday env d st)))"

fun state_after :: "platform \<Rightarrow> date list \<Rightarrow> state \<Rightarrow> state" where
  "state_after env [] st = st"
| "state_after env (d # ds) st = state_after env ds (snd (HolidayData_is_holiday env d st))"

text \<open>The state in which \<^verbatim>\<open>get_holidays\<close> starts to classify: after its own fetch of the
  year's list when the client module is present.\<close>

definition prefetch_state :: "platform \<Rightarrow> int \<Rightarrow> state \<Rightarrow> state" where
  "prefetch_state env yr st =
     (if HAS_API env
      then snd (get_holiday_data env yr (open_plat (config env)) (center_url (config env))
                  (app_id (config env)) (app_secret (config env)) st)
      else st)"

section \<open>Properties\<close>

lemmas cal_defs = weekday_def toordinal_def days_before_year_def days_before_month_def is_leap_def
  strftime_def year_digits_def pad4_def pad2_def digit_def
lemmas env_defs = env_offline_def env_absent_def env_online_def demo_loads_def demo_config_def st0_def utc_timestamp_def utc_weekday_def
lemmas client_defs = is_workday_def get_work_day_def get_holiday_data_def get_holiday_data_body_def
  get_access_token_def get_access_token_body_def http_post_json_def lru_put_def lru_touch_def
  work_day_lookup_def extract_nested_def catch_KeyError_def bind_err_def

subsection \<open>Day classification\<close>

lemma weekday_range: "0 \<le> weekday d \<and> weekday d \<le> 6"
  by (simp add: weekday_def)

lemma api_is_workday_returns: "fst (api_is_workday env d st) = Inr (fst (is_workday env d st))"
  by (simp add: api_is_workday_def split: prod.splits)

text \<open>With the client module absent, a date found in the table of its year is classified
  by its flag alone.\<close>

lemma local_table_decides:
  assumes "\<not> HAS_API env" and "HolidayData_holidays (year d) = Some t"
    and "t (strftime d) = Some flag"
  shows "fst (HolidayData_is_holiday env d st)
     = (if flag then (True, StatutoryHoliday) else (False, AdjustedWorkday))"
  using assms by (simp add: HolidayData_is_holiday_def local_is_holiday_def)

text \<open>
  Claim C10. Whatever the platform, the state and the date, \<^verbatim>\<open>is_holiday\<close> returns a pair
  whose flag is true exactly for the labels weekend, statutory holiday and rest day, and
  false exactly for the labels working day and adjusted working day. The labels are the
  five constructors of \<open>day_kind\<close>, and the function is total.
\<close>

theorem classify_label_consistent:
  "(fst (fst (HolidayData_is_holiday env d st)) =
      (snd (fst (HolidayData_is_holiday env d st)) \<in> {Weekend, StatutoryHoliday, SpecialRestDay}))
   \<and> ((\<not> fst (fst (HolidayData_is_holiday env d st))) =
      (snd (fst (HolidayData_is_holiday env d st)) \<in> {WorkingDay, AdjustedWorkday}))"
  by (auto simp: HolidayData_is_holiday_def api_is_workday_def local_is_holiday_def
      split: prod.splits sum.splits option.splits if_splits)

text \<open>
  Claim C7. With the remote path disabled (the client module absent), a date of 2026
  that is not a key of the table is a working day from Monday to Friday (weekdays 0 to
  4) and a weekend on Saturday and Sunday (weekdays 5 and 6); every weekday number is
  one of the seven.
\<close>

theorem default_rule_when_api_absent:
  assumes "\<not> HAS_API env" and "year d = 2026" and "map_of holidays_2026 (strftime d) = None"
  shows "(weekday d \<in> {0, 1, 2, 3, 4} \<longrightarrow> fst (HolidayData_is_holiday env d st) = (False, WorkingDay))
       \<and> (weekday d \<in> {5, 6} \<longrightarrow> fst (HolidayData_is_holiday env d st) = (True, Weekend))
       \<and> weekday d \<in> {0, 1, 2, 3, 4, 5, 6}"
proof -
  have "0 \<le> weekday d \<and> weekday d \<le> 6" by (rule weekday_range)
  then have r: "weekday d \<in> {0, 1, 2, 3, 4, 5, 6}" by (simp) arith
  show ?thesis
    using assms r
    by (auto simp: HolidayData_is_holiday_def local_is_holiday_def HolidayData_holidays_def)
qed

text \<open>Monday 2026-03-02 and Saturday 2026-03-07 are not in the table.\<close>

theorem default_rule_when_api_absent_witness:
  "fst (HolidayData_is_holiday env_absent \<lparr>year = 2026, month = 3, day = 2\<rparr> st0) = (False, WorkingDay)
   \<and> fst (HolidayData_is_holiday env_absent \<lparr>year = 2026, month = 3, day = 7\<rparr> st0) = (True, Weekend)"
proof -
  have a: "\<not> HAS_API env_absent" by (simp add: env_absent_def)
  have m: "map_of holidays_2026 (strftime \<lparr>year = 2026, month = 3, day = 2\<rparr>) = None"
    by (simp add: holidays_2026_def cal_defs)
  have s: "map_of holidays_2026 (strftime \<lparr>year = 2026, month = 3, day = 7\<rparr>) = None"
    by (simp add: holidays_2026_def cal_defs)
  have wm: "weekday \<lparr>year = 2026, month = 3, day = 2\<rparr> = 0" by (simp add: cal_defs)
  have ws: "weekday \<lparr>year = 2026, month = 3, day = 7\<rparr> = 5" by (simp add: cal_defs)
  show ?thesis
    using default_rule_when_api_absent [OF a _ m, of st0]
      default_rule_when_api_absent [OF a _ s, of st0] wm ws
    by simp
qed

text \<open>
  Claim C2. When the client module is present and the remote query for the date returns
  an answer (not \<^verbatim>\<open>None\<close>), the classification is the four-case mapping on that answer's
  truth value and on whether the date is a Saturday or Sunday.
\<close>

theorem remote_four_case_mapping:
  assumes "HAS_API env" and "timestamp env d = Some ts"
    and "get_work_day env (year d) ts None None st = (Inr answer, st1)"
    and "answer \<noteq> JNull"
  shows "HolidayData_is_holiday env d st =
     ((if py_truthy answer
       then (if weekday d = 5 \<or> weekday d = 6 then (False, AdjustedWorkday) else (False, WorkingDay))
       else (if weekday d = 5 \<or> weekday d = 6 then (True, Weekend) else (True, SpecialRestDay))),
      st1)"
  using assms
  by (simp add: HolidayData_is_holiday_def api_is_workday_def is_workday_def)

text \<open>Saturday 2026-02-28, listed by the remote source under its midnight timestamp as a
  working day, is an adjusted working day.\<close>

theorem remote_four_case_mapping_witness:
  "HolidayData_is_holiday
     (env_online [JObj [(''date'', JInt 1772236800), (''is_work_day'', JBool True)]])
     \<lparr>year = 2026, month = 2, day = 28\<rparr> st0
   = ((False, AdjustedWorkday),
      snd (get_work_day
        (env_online [JObj [(''date'', JInt 1772236800), (''is_work_day'', JBool True)]])
        2026 1772236800 None None st0))"
proof -
  let ?env = "env_online [JObj [(''date'', JInt 1772236800), (''is_work_day'', JBool True)]]"
  let ?d = "\<lparr>year = 2026, month = 2, day = 28\<rparr>"
  have a: "HAS_API ?env" by (simp add: env_online_def)
  have t: "timestamp ?env ?d = Some 1772236800" by (simp add: env_defs cal_defs)
  have g: "fst (get_work_day ?env 2026 1772236800 None None st0) = Inr (JBool True)"
    by (simp add: client_defs env_defs)
  then have g': "get_work_day ?env (year ?d) 1772236800 None None st0
      = (Inr (JBool True), snd (get_work_day ?env 2026 1772236800 None None st0))"
    by (simp add: prod_eq_iff)
  have w: "weekday ?d = 5" by (simp add: cal_defs)
  show ?thesis
    using remote_four_case_mapping [OF a t g'] w by simp
qed

text \<open>
  Claim C1, evaluated where it fails. Every request fails, so the token acquisition
  returns \<^verbatim>\<open>None\<close>; \<^verbatim>\<open>is_workday\<close> then answers by the day of the week instead of raising,
  and \<^verbatim>\<open>is_holiday\<close> classifies Monday 2026-02-02 as a working day, although the local
  table holds it with flag true and the local step alone gives a statutory holiday.
\<close>

theorem remote_failure_skips_local_table:
  "fst (HolidayData_is_holiday env_offline \<lparr>year = 2026, month = 2, day = 2\<rparr> st0)
     = (False, WorkingDay)
   \<and> fst (get_access_token env_offline (center_url demo_config) (app_id demo_config)
            (app_secret demo_config) st0) = Inr JNull
   \<and> map_of holidays_2026 ''2026-02-02'' = Some True
   \<and> local_is_holiday \<lparr>year = 2026, month = 2, day = 2\<rparr> = (True, StatutoryHoliday)"
proof -
  have 1: "fst (HolidayData_is_holiday env_offline \<lparr>year = 2026, month = 2, day = 2\<rparr> st0)
     = (False, WorkingDay)"
    by (simp add: HolidayData_is_holiday_def api_is_workday_def client_defs env_defs cal_defs)
  have 2: "fst (get_access_token env_offline (center_url demo_config) (app_id demo_config)
            (app_secret demo_config) st0) = Inr JNull"
    by (simp add: client_defs env_defs)
  have 3: "map_of holidays_2026 ''2026-02-02'' = Some True"
    by (simp add: holidays_2026_def)
  have 4: "local_is_holiday \<lparr>year = 2026, month = 2, day = 2\<rparr> = (True, StatutoryHoliday)"
    by (simp add: local_is_holiday_def HolidayData_holidays_def holidays_2026_def cal_defs)
  show ?thesis using 1 2 3 4 by simp
qed

text \<open>
  Claim C3, evaluated where it fails. Saturday 2026-02-28 is in the table with flag
  false. With the client module absent it is an adjusted working day; with the module
  present and every request failing it is a weekend.
\<close>

theorem adjusted_workday_lost_on_remote_failure:
  "fst (HolidayData_is_holiday env_offline \<lparr>year = 2026, month = 2, day = 28\<rparr> st0)
     = (True, Weekend)
   \<and> map_of holidays_2026 ''2026-02-28'' = Some False
   \<and> fst (HolidayData_is_holiday env_absent \<lparr>year = 2026, month = 2, day = 28\<rparr> st0)
     = (False, AdjustedWorkday)"
proof -
  have 1: "fst (HolidayData_is_holiday env_offline \<lparr>year = 2026, month = 2, day = 28\<rparr> st0)
     = (True, Weekend)"
    by (simp add: HolidayData_is_holiday_def api_is_workday_def client_defs env_defs cal_defs)
  have 3: "map_of holidays_2026 ''2026-02-28'' = Some False"
    by (simp add: holidays_2026_def)
  have 4: "fst (HolidayData_is_holiday env_absent \<lparr>year = 2026, month = 2, day = 28\<rparr> st0)
     = (False, AdjustedWorkday)"
    by (simp add: HolidayData_is_holiday_def local_is_holiday_def HolidayData_holidays_def
        holidays_2026_def cal_defs env_defs)
  show ?thesis using 1 3 4 by simp
qed

subsection \<open>The token cache\<close>

lemma token_cache_hit:
  assumes "map_of (token_cache st) (c, a, s) = Some v"
  shows "fst (get_access_token env c a s st) = Inr v"
    and "net_calls (snd (get_access_token env c a s st)) = net_calls st"
    and "map_of (token_cache (snd (get_access_token env c a s st))) (c, a, s) = Some v"
  using assms by (simp_all add: get_access_token_def lru_touch_def)

lemma token_cached_after_return:
  assumes "get_access_token env c a s st = (Inr v, st1)"
  shows "map_of (token_cache st1) (c, a, s) = Some v"
  using assms
  by (auto simp: get_access_token_def lru_touch_def lru_put_def
      split: option.splits prod.splits sum.splits)

lemma online_miss:
  "map_of (token_cache st) (c, a, s) = None \<Longrightarrow> a \<noteq> [] \<Longrightarrow>
   get_access_token (env_online rs) c a s st =
     (Inr (JStr ''tok''),
      st\<lparr>net_calls := Suc (net_calls st), token_cache := [((c, a, s), JStr ''tok'')]\<rparr>)"
  by (simp add: client_defs env_defs)

lemma token_body_one_request:
  "a \<noteq> [] \<Longrightarrow> net_calls (snd (get_access_token_body env c a s st)) = Suc (net_calls st)"
  by (simp add: get_access_token_body_def http_post_json_def split: option.splits)

lemma token_miss:
  assumes "map_of (token_cache st) (c, a, s) = None"
  shows "fst (get_access_token env c a s st) = fst (get_access_token_body env c a s st)"
    and "net_calls (snd (get_access_token env c a s st))
           = net_calls (snd (get_access_token_body env c a s st))"
  using assms
  by (simp_all add: get_access_token_def split: prod.splits sum.splits)

lemma token_cache_after_miss:
  assumes "map_of (token_cache st) (c, a, s) = None"
    and "get_access_token env c a s st = (Inr v, st1)"
  shows "token_cache st1 = [((c, a, s), v)]"
  using assms
  by (auto simp: get_access_token_def lru_put_def split: prod.splits sum.splits)

lemma one_entry_cache:
  assumes "length cache \<le> 1" and "map_of cache k = Some v"
  shows "cache = [(k, v)]"
proof (cases cache)
  case Nil
  then show ?thesis using assms(2) by simp
next
  case (Cons kv rest)
  then have "rest = []" using assms(1) by simp
  then show ?thesis using Cons assms(2) by (cases kv) (auto split: if_splits)
qed

lemma token_cache_after_return:
  assumes "length (token_cache st) \<le> 1"
    and "get_access_token env c a s st = (Inr v, st1)"
  shows "token_cache st1 = [((c, a, s), v)]"
proof (cases "map_of (token_cache st) (c, a, s)")
  case None
  then show ?thesis using assms(2) by (rule token_cache_after_miss)
next
  case (Some w)
  have "token_cache st = [((c, a, s), w)]"
    using assms(1) Some by (rule one_entry_cache)
  then show ?thesis
    using assms(2) by (auto simp: get_access_token_def lru_touch_def)
qed

lemma token_cache_capacity:
  "length (token_cache st) \<le> 1 \<Longrightarrow>
   length (token_cache (snd (get_access_token env c a s st))) \<le> 1"
proof (cases "map_of (token_cache st) (c, a, s)")
  case None
  assume "length (token_cache st) \<le> 1"
  moreover have "token_cache (snd (get_access_token_body env c a s st)) = token_cache st"
    by (simp add: get_access_token_body_def http_post_json_def split: option.splits)
  ultimately show ?thesis
    using None
    by (auto simp: get_access_token_def lru_put_def split: prod.splits sum.splits)
next
  case (Some w)
  assume "length (token_cache st) \<le> 1"
  then have "token_cache st = [((c, a, s), w)]" using Some by (rule one_entry_cache)
  then show ?thesis by (simp add: get_access_token_def lru_touch_def)
qed

text \<open>
  Claim C6, as amended. The token cache holds one entry. Once a call has returned a
  token for a triple: a call with the same triple made while the cache still holds that
  entry returns the same token and issues no request, whatever the transport would
  answer by then, and the entry stays cached. In a cache within its capacity the entry
  is then the only one; a returning call with another triple replaces it, and the next
  call with the first triple is computed anew by the function's body, which, the
  application id not being empty, issues one request.
\<close>

theorem token_success_memoized_until_evicted:
  assumes "get_access_token env c a s st = (Inr tok, st1)" and "tok \<noteq> JNull"
    and "token_cache st2 = token_cache st1"
  shows "fst (get_access_token env' c a s st2) = Inr tok
       \<and> net_calls (snd (get_access_token env' c a s st2)) = net_calls st2
       \<and> map_of (token_cache (snd (get_access_token env' c a s st2))) (c, a, s) = Some tok
       \<and> (length (token_cache st) \<le> 1 \<longrightarrow>
            token_cache st1 = [((c, a, s), tok)]
            \<and> token_cache (snd (get_access_token env' c a s st2)) = [((c, a, s), tok)])
       \<and> (length (token_cache st) \<le> 1 \<and> (c', a', s') \<noteq> (c, a, s)
            \<and> get_access_token env2 c' a' s' st2 = (Inr tok', st3) \<longrightarrow>
            token_cache st3 = [((c', a', s'), tok')]
            \<and> map_of (token_cache st3) (c, a, s) = None
            \<and> fst (get_access_token env3 c a s st3)
                 = fst (get_access_token_body env3 c a s st3)
            \<and> (a \<noteq> [] \<longrightarrow>
                 net_calls (snd (get_access_token env3 c a s st3)) = Suc (net_calls st3)))"
proof -
  have cached: "map_of (token_cache st2) (c, a, s) = Some tok"
    using assms(1,3) by (simp add: token_cached_after_return)
  have hit: "fst (get_access_token env' c a s st2) = Inr tok"
    "net_calls (snd (get_access_token env' c a s st2)) = net_calls st2"
    "map_of (token_cache (snd (get_access_token env' c a s st2))) (c, a, s) = Some tok"
    using cached by (simp_all add: token_cache_hit)
  have single: "token_cache st1 = [((c, a, s), tok)]
      \<and> token_cache (snd (get_access_token env' c a s st2)) = [((c, a, s), tok)]"
    if cap: "length (token_cache st) \<le> 1"
  proof -
    have one: "token_cache st1 = [((c, a, s), tok)]"
      using cap assms(1) by (rule token_cache_after_return)
    have "length (token_cache st2) \<le> 1" using one assms(3) by simp
    moreover have "get_access_token env' c a s st2
        = (Inr tok, snd (get_access_token env' c a s st2))"
      using hit(1) by (simp add: prod_eq_iff)
    ultimately have "token_cache (snd (get_access_token env' c a s st2)) = [((c, a, s), tok)]"
      by (rule token_cache_after_return)
    then show ?thesis using one by simp
  qed
  have evict: "token_cache st3 = [((c', a', s'), tok')]
      \<and> map_of (token_cache st3) (c, a, s) = None
      \<and> fst (get_access_token env3 c a s st3) = fst (get_access_token_body env3 c a s st3)
      \<and> (a \<noteq> [] \<longrightarrow>
           net_calls (snd (get_access_token env3 c a s st3)) = Suc (net_calls st3))"
    if cap: "length (token_cache st) \<le> 1" and other: "(c', a', s') \<noteq> (c, a, s)"
      and call: "get_access_token env2 c' a' s' st2 = (Inr tok', st3)"
  proof -
    have "token_cache st2 = [((c, a, s), tok)]" using single [OF cap] assms(3) by simp
    then have "map_of (token_cache st2) (c', a', s') = None" using other by simp
    then have replaced: "token_cache st3 = [((c', a', s'), tok')]"
      using call by (rule token_cache_after_miss)
    then have gone: "map_of (token_cache st3) (c, a, s) = None" using other by auto
    show ?thesis
      using replaced gone token_miss [OF gone, of env3] token_body_one_request [of a env3 c s st3]
      by simp
  qed
  show ?thesis using hit single evict by blast
qed

text \<open>The token for triple A is fetched online (one request). A second call for A, with
  the network gone, is served from the cache. After a call for triple B (second request)
  the cache holds B alone, and the next call for A issues the third request.\<close>

theorem token_success_memoized_until_evicted_witness:
  "fst (get_access_token env_offline ''u'' ''a'' ''s''
          \<lparr>net_calls = 1, token_cache = [((''u'', ''a'', ''s''), JStr ''tok'')],
             holiday_cache = []\<rparr>)
     = Inr (JStr ''tok'')
   \<and> net_calls (snd (get_access_token env_offline ''u'' ''a'' ''s''
          \<lparr>net_calls = 1, token_cache = [((''u'', ''a'', ''s''), JStr ''tok'')],
             holiday_cache = []\<rparr>)) = 1
   \<and> net_calls (snd (get_access_token (env_online []) ''u'' ''a'' ''s''
          \<lparr>net_calls = 2, token_cache = [((''u'', ''b'', ''s''), JStr ''tok'')],
             holiday_cache = []\<rparr>)) = 3"
proof -
  let ?s1 = "\<lparr>net_calls = 1, token_cache = [((''u'', ''a'', ''s''), JStr ''tok'')],
               holiday_cache = []\<rparr>"
  let ?s3 = "\<lparr>net_calls = 2, token_cache = [((''u'', ''b'', ''s''), JStr ''tok'')],
               holiday_cache = []\<rparr>"
  have first: "get_access_token (env_online []) ''u'' ''a'' ''s'' st0 = (Inr (JStr ''tok''), ?s1)"
    by (simp add: online_miss st0_def)
  have ok: "JStr ''tok'' \<noteq> JNull" by simp
  have second: "get_access_token (env_online []) ''u'' ''b'' ''s'' ?s1 = (Inr (JStr ''tok''), ?s3)"
    by (simp add: online_miss)
  have cap: "length (token_cache st0) \<le> 1" by (simp add: st0_def)
  have other: "(''u'', ''b'', ''s'') \<noteq> (''u'', ''a'', ''s'')" by simp
  have ne: "''a'' \<noteq> []" by simp
  note inst = token_success_memoized_until_evicted
    [where env' = env_offline and c' = "''u''" and a' = "''b''"
      and s' = "''s''" and ?env2.0 = "env_online []" and tok' = "JStr ''tok''"
      and ?st3.0 = ?s3 and ?env3.0 = "env_online []", OF first ok refl]
  have hit: "fst (get_access_token env_offline ''u'' ''a'' ''s'' ?s1) = Inr (JStr ''tok'')"
    "net_calls (snd (get_access_token env_offline ''u'' ''a'' ''s'' ?s1)) = net_calls ?s1"
    using inst by blast+
  have again: "net_calls (snd (get_access_token (env_online []) ''u'' ''a'' ''s'' ?s3))
      = Suc (net_calls ?s3)"
    using inst cap other second ne by blast
  show ?thesis using hit again by simp
qed

text \<open>
  Claim C6 as stated fails: the cache has room for one triple. Three successful calls
  with the triples A, B, A issue three requests; the two calls with A each issue one.
\<close>

theorem token_evicted_by_other_triple:
  "get_access_token (env_online []) ''u'' ''a'' ''s'' st0
     = (Inr (JStr ''tok''),
        \<lparr>net_calls = 1, token_cache = [((''u'', ''a'', ''s''), JStr ''tok'')],
           holiday_cache = []\<rparr>)
   \<and> get_access_token (env_online []) ''u'' ''b'' ''s''
        \<lparr>net_calls = 1, token_cache = [((''u'', ''a'', ''s''), JStr ''tok'')],
           holiday_cache = []\<rparr>
     = (Inr (JStr ''tok''),
        \<lparr>net_calls = 2, token_cache = [((''u'', ''b'', ''s''), JStr ''tok'')],
           holiday_cache = []\<rparr>)
   \<and> get_access_token (env_online []) ''u'' ''a'' ''s''
        \<lparr>net_calls = 2, token_cache = [((''u'', ''b'', ''s''), JStr ''tok'')],
           holiday_cache = []\<rparr>
     = (Inr (JStr ''tok''),
        \<lparr>net_calls = 3, token_cache = [((''u'', ''a'', ''s''), JStr ''tok'')],
           holiday_cache = []\<rparr>)"
  by (simp add: online_miss st0_def)

text \<open>
  Claim C9. For a triple with a non-empty application id, once a call has returned
  \<^verbatim>\<open>None\<close>, a call with the same triple made while the token cache still holds that entry
  returns \<^verbatim>\<open>None\<close> again and issues no request, whatever the transport would answer by
  then; the entry stays cached, so the same holds for every later such call.
\<close>

theorem token_failure_memoized:
  assumes "a \<noteq> []" and "get_access_token env c a s st = (Inr JNull, st1)"
    and "token_cache st2 = token_cache st1"
  shows "fst (get_access_token env' c a s st2) = Inr JNull
       \<and> net_calls (snd (get_access_token env' c a s st2)) = net_calls st2
       \<and> map_of (token_cache (snd (get_access_token env' c a s st2))) (c, a, s) = Some JNull"
proof -
  have "map_of (token_cache st2) (c, a, s) = Some JNull"
    using assms(2,3) by (simp add: token_cached_after_return)
  then show ?thesis by (simp add: token_cache_hit)
qed

text \<open>The first call fails offline after one request; the second call, with both
  endpoints answering, still returns \<^verbatim>\<open>None\<close> and the request count stays at one.\<close>

theorem token_failure_memoized_witness:
  "fst (get_access_token (env_online []) ''u'' ''a'' ''s''
          (snd (get_access_token env_offline ''u'' ''a'' ''s'' st0))) = Inr JNull
   \<and> net_calls (snd (get_access_token (env_online []) ''u'' ''a'' ''s''
          (snd (get_access_token env_offline ''u'' ''a'' ''s'' st0)))) = 1
   \<and> net_calls (snd (get_access_token env_offline ''u'' ''a'' ''s'' st0)) = 1"
proof -
  have first: "get_access_token env_offline ''u'' ''a'' ''s'' st0
     = (Inr JNull,
        \<lparr>net_calls = 1, token_cache = [((''u'', ''a'', ''s''), JNull)], holiday_cache = []\<rparr>)"
    by (simp add: client_defs env_defs)
  have ne: "''a'' \<noteq> []" by simp
  show ?thesis
    using token_failure_memoized [OF ne first, of _ "env_online []"] first by simp
qed

subsection \<open>The exception lookup of \<^verbatim>\<open>get_work_day\<close>\<close>

lemma string_key_no_int: "is_JStr k \<Longrightarrow> \<not> py_eq_int k n"
  by (cases k) simp_all

lemma string_keyed_no_int: "list_all (\<lambda>kv. is_JStr (fst kv)) kvs \<Longrightarrow> dict_find_int kvs n = None"
  by (induction kvs) (auto simp: string_key_no_int)

lemma build_string_dated:
  "list_all string_dated_record items \<Longrightarrow> list_all (\<lambda>kv. is_JStr (fst kv)) acc \<Longrightarrow>
   \<exists>dict. build_holiday_dict items acc = Inr dict \<and> list_all (\<lambda>kv. is_JStr (fst kv)) dict"
proof (induction items arbitrary: acc)
  case Nil
  then show ?case by simp
next
  case (Cons item items)
  from Cons.prems(1) obtain kvs s v where
    item: "item = JObj kvs" "map_of kvs ''date'' = Some (JStr s)"
      "map_of kvs ''is_work_day'' = Some v"
    by (cases item) (auto split: option.splits json.splits)
  have "list_all (\<lambda>kv. is_JStr (fst kv)) ((JStr s, v) # acc)"
    using Cons.prems(2) by simp
  moreover have "list_all string_dated_record items"
    using Cons.prems(1) by simp
  ultimately obtain dict where
    "build_holiday_dict items ((JStr s, v) # acc) = Inr dict"
    "list_all (\<lambda>kv. is_JStr (fst kv)) dict"
    using Cons.IH by blast
  then show ?case using item by (simp add: bind_err_def)
qed

lemma lookup_string_dated:
  assumes "list_all string_dated_record records"
  shows "work_day_lookup env (JArr records) ts =
           (case fromtimestamp_weekday env ts of
              None \<Rightarrow> Inl OverflowError
            | Some wd \<Rightarrow> Inr (JBool (wd < 5)))"
proof -
  obtain dict where "build_holiday_dict records [] = Inr dict"
    "list_all (\<lambda>kv. is_JStr (fst kv)) dict"
    using build_string_dated [OF assms, of "[]"] by auto
  then show ?thesis
    by (simp add: work_day_lookup_def bind_err_def string_keyed_no_int)
qed

text \<open>
  Claim C8. When the holiday list was fetched and each of its records carries a string
  under \<^verbatim>\<open>date\<close> (and a value under \<^verbatim>\<open>is_work_day\<close>), \<^verbatim>\<open>get_work_day(year, timestamp)\<close> finds
  no record for the integer timestamp and returns the weekday default of the timestamp's
  local day: true from Monday to Friday, false on Saturday and Sunday. No flag of any
  record is read.
\<close>

theorem string_dates_never_match_timestamp:
  assumes "get_holiday_data env yr (open_plat (config env)) (center_url (config env))
             (app_id (config env)) (app_secret (config env)) st = (Inr (JArr records), st1)"
    and "list_all string_dated_record records"
    and "fromtimestamp_weekday env ts = Some wd"
  shows "get_work_day env yr ts None None st = (Inr (JBool (wd < 5)), st1)"
  using assms by (simp add: get_work_day_def lookup_string_dated)

text \<open>The remote list marks Saturday 2026-02-28 as a working day under the string
  \<^verbatim>\<open>2026-02-28\<close>; the query for that day's midnight timestamp answers false.\<close>

theorem string_dates_never_match_timestamp_witness:
  "fst (get_work_day
     (env_online [JObj [(''date'', JStr ''2026-02-28''), (''is_work_day'', JBool True)]])
     2026 1772236800 None None st0) = Inr (JBool False)"
proof -
  let ?rs = "[JObj [(''date'', JStr ''2026-02-28''), (''is_work_day'', JBool True)]]"
  have f: "fst (get_holiday_data (env_online ?rs) 2026 (open_plat (config (env_online ?rs)))
       (center_url (config (env_online ?rs))) (app_id (config (env_online ?rs)))
       (app_secret (config (env_online ?rs))) st0) = Inr (JArr ?rs)"
    by (simp add: client_defs env_defs)
  then have f': "get_holiday_data (env_online ?rs) 2026 (open_plat (config (env_online ?rs)))
       (center_url (config (env_online ?rs))) (app_id (config (env_online ?rs)))
       (app_secret (config (env_online ?rs))) st0 = (Inr (JArr ?rs),
         snd (get_holiday_data (env_online ?rs) 2026 (open_plat (config (env_online ?rs)))
       (center_url (config (env_online ?rs))) (app_id (config (env_online ?rs)))
       (app_secret (config (env_online ?rs))) st0))"
    by (simp add: prod_eq_iff)
  have r: "list_all string_dated_record ?rs" by simp
  have w: "fromtimestamp_weekday (env_online ?rs) 1772236800 = Some 5"
    by (simp add: env_defs)
  show ?thesis
    using string_dates_never_match_timestamp [OF f' r w] by simp
qed

subsection \<open>Bulk status validation\<close>




lemmas parse_defs = strptime_def digit_val_def make_date_def valid_date_def days_in_month_def
  is_leap_def





subsection \<open>Year enumeration\<close>

lemma rest_of_year_first: "rest_of_year \<lparr>year = y, month = 1, day = 1\<rparr> = year_days y"
proof -
  have "[1..12] = (1::int) # [2..12]" by (simp add: upto_rec1)
  then show ?thesis by (simp add: rest_of_year_def year_days_def month_days_def)
qed

lemma rest_of_year_step_day:
  assumes "day c < days_in_month (year c) (month c)"
  shows "rest_of_year c = \<lparr>year = year c, month = month c, day = day c\<rparr>
           # rest_of_year (c\<lparr>day := day c + 1\<rparr>)"
  using assms by (simp add: rest_of_year_def upto_rec1 [of "day c"])

lemma rest_of_year_step_month:
  assumes "day c = days_in_month (year c) (month c)" and "month c < 12"
  shows "rest_of_year c = \<lparr>year = year c, month = month c, day = day c\<rparr>
           # rest_of_year \<lparr>year = year c, month = month c + 1, day = 1\<rparr>"
  using assms
  by (simp add: rest_of_year_def month_days_def upto_rec1 [of "month c + 1"])

lemma rest_of_year_last:
  assumes "day c = days_in_month (year c) (month c)" and "month c = 12"
  shows "rest_of_year c = [\<lparr>year = year c, month = month c, day = day c\<rparr>]"
  using assms by (simp add: rest_of_year_def)

lemma date_eta: "\<lparr>year = year c, month = month c, day = day c\<rparr> = (c :: date)"
  by simp

lemma year_loop_rest_of_year:
  "valid_date c \<Longrightarrow> year c = year e \<Longrightarrow> month e = 12 \<Longrightarrow> day e = 31 \<Longrightarrow>
   year_loop env c e hs st =
     (if year e < 9999 then None else Some OverflowError,
      hs @ map strftime (holiday_dates env (rest_of_year c) st),
      state_after env (rest_of_year c) st)"
proof (induction env c e hs st rule: year_loop.induct)
  case (1 env c e hs st)
  let ?r = "HolidayData_is_holiday env c st"
  let ?hs1 = "if fst (fst ?r) then hs @ [strftime c] else hs"
  have le: "date_le c e"
    using "1.prems" by (auto simp: date_le_def valid_date_def days_in_month_def split: if_splits)
  have unfold: "year_loop env c e hs st =
      (case add_day c of Inl err \<Rightarrow> (Some err, ?hs1, snd ?r)
       | Inr next_date \<Rightarrow> year_loop env next_date e ?hs1 (snd ?r))"
    using le by (subst year_loop.simps) (simp add: Let_def)
  have "day c \<le> days_in_month (year c) (month c)" and "month c \<le> 12"
    using "1.prems"(1) by (simp_all add: valid_date_def)
  then have "day c < days_in_month (year c) (month c)
      \<or> (day c = days_in_month (year c) (month c) \<and> month c < 12)
      \<or> (day c = days_in_month (year c) (month c) \<and> month c = 12)"
    by arith
  then consider (day) "day c < days_in_month (year c) (month c)"
    | (month) "day c = days_in_month (year c) (month c)" "month c < 12"
    | (last) "day c = days_in_month (year c) (month c)" "month c = 12"
    by blast
  then show ?case
  proof cases
    case day
    let ?n = "c\<lparr>day := day c + 1\<rparr>"
    have nxt: "add_day c = Inr ?n" using day by (simp add: add_day_def)
    have v: "valid_date ?n" using "1.prems"(1) day by (simp add: valid_date_def)
    have ih: "year_loop env ?n e ?hs1 (snd ?r) =
        (if year e < 9999 then None else Some OverflowError,
         ?hs1 @ map strftime (holiday_dates env (rest_of_year ?n) (snd ?r)),
         state_after env (rest_of_year ?n) (snd ?r))"
      using "1.IH" [OF le refl refl nxt v] "1.prems" by simp
    show ?thesis
      using unfold nxt ih rest_of_year_step_day [OF day] by (simp add: date_eta)
  next
    case month
    let ?n = "\<lparr>year = year c, month = month c + 1, day = 1\<rparr>"
    have nxt: "add_day c = Inr ?n" using month by (simp add: add_day_def)
    have v: "valid_date ?n"
      using "1.prems"(1) month by (simp add: valid_date_def days_in_month_def)
    have ih: "year_loop env ?n e ?hs1 (snd ?r) =
        (if year e < 9999 then None else Some OverflowError,
         ?hs1 @ map strftime (holiday_dates env (rest_of_year ?n) (snd ?r)),
         state_after env (rest_of_year ?n) (snd ?r))"
      using "1.IH" [OF le refl refl nxt v] "1.prems" by simp
    show ?thesis
      using unfold nxt ih rest_of_year_step_month [OF month] by (simp add: date_eta)
  next
    case last
    show ?thesis
    proof (cases "year c < 9999")
      case True
      let ?n = "\<lparr>year = year c + 1, month = 1, day = 1\<rparr>"
      have nxt: "add_day c = Inr ?n" using last True by (simp add: add_day_def)
      have stop: "\<not> date_le ?n e" using "1.prems" by (simp add: date_le_def)
      have stopped: "year_loop env ?n e ?hs1 (snd ?r) = (None, ?hs1, snd ?r)"
        using stop by (subst year_loop.simps) simp
      have ye: "year e < 9999" using True "1.prems"(2) by simp
      show ?thesis
        using unfold nxt stopped rest_of_year_last [OF last] ye
        by (simp add: date_eta)
    next
      case False
      have nxt: "add_day c = Inl OverflowError" using last False by (simp add: add_day_def)
      have ye: "\<not> year e < 9999" using False "1.prems"(2) by simp
      show ?thesis
        using unfold nxt rest_of_year_last [OF last] ye
        by (simp add: date_eta)
    qed
  qed
qed

lemma enumerate_year_days:
  assumes "1 \<le> y" and "y \<le> 9999"
  shows "enumerate_year env y hs st =
     (if y < 9999 then None else Some OverflowError,
      hs @ map strftime (holiday_dates env (year_days y) st),
      state_after env (year_days y) st)"
proof -
  have v1: "valid_date \<lparr>year = y, month = 1, day = 1\<rparr>"
    using assms by (simp add: valid_date_def days_in_month_def)
  have v2: "valid_date \<lparr>year = y, month = 12, day = 31\<rparr>"
    using assms by (simp add: valid_date_def days_in_month_def)
  have "year_loop env \<lparr>year = y, month = 1, day = 1\<rparr> \<lparr>year = y, month = 12, day = 31\<rparr> hs st =
     (if y < 9999 then None else Some OverflowError,
      hs @ map strftime (holiday_dates env (year_days y) st),
      state_after env (year_days y) st)"
    using year_loop_rest_of_year [OF v1, of "\<lparr>year = y, month = 12, day = 31\<rparr>" env hs st]
    by (simp add: rest_of_year_first)
  then show ?thesis using v1 v2 by (simp add: enumerate_year_def make_date_def)
qed

lemma get_holidays_year_days:
  assumes "1 \<le> y" and "y \<le> 9998"
  shows "HolidayData_get_holidays env y st =
     (Inr (map strftime (holiday_dates env (year_days y) (prefetch_state env y st))),
      state_after env (year_days y) (prefetch_state env y st))"
  using assms
  by (simp add: HolidayData_get_holidays_def local_enumeration_def enumerate_year_days
      prefetch_state_def split: prod.splits sum.splits)

lemma get_holidays_last_year:
  "fst (HolidayData_get_holidays env 9999 st) = Inl OverflowError"
  by (simp add: HolidayData_get_holidays_def local_enumeration_def enumerate_year_days
      split: prod.splits sum.splits)

lemma get_holidays_bad_year:
  "y < 1 \<or> 9999 < y \<Longrightarrow> fst (HolidayData_get_holidays env y st) = Inl ValueError"
  by (auto simp: HolidayData_get_holidays_def local_enumeration_def enumerate_year_def
      make_date_def valid_date_def split: prod.splits sum.splits)

lemma in_month_days:
  "d \<in> set (month_days y m) \<longleftrightarrow>
     year d = y \<and> month d = m \<and> 1 \<le> day d \<and> day d \<le> days_in_month y m"
  by (cases d) (auto simp: month_days_def)

lemma in_year_days:
  "d \<in> set (year_days y) \<longleftrightarrow>
     year d = y \<and> 1 \<le> month d \<and> month d \<le> 12
     \<and> 1 \<le> day d \<and> day d \<le> days_in_month y (month d)"
  by (auto simp: year_days_def in_month_days)

lemma year_days_valid:
  "1 \<le> y \<Longrightarrow> y \<le> 9999 \<Longrightarrow> d \<in> set (year_days y) \<Longrightarrow> valid_date d \<and> year d = y"
  by (simp add: in_year_days valid_date_def)

lemma sorted_wrt_concat_map:
  "sorted_wrt (<) xs \<Longrightarrow> (\<And>x. x \<in> set xs \<Longrightarrow> sorted_wrt P (f x)) \<Longrightarrow>
   (\<And>x y a b. x < y \<Longrightarrow> a \<in> set (f x) \<Longrightarrow> b \<in> set (f y) \<Longrightarrow> P a b) \<Longrightarrow>
   sorted_wrt P (concat (map f (xs :: int list)))"
  by (induction xs) (auto simp: sorted_wrt_append)

lemma month_days_sorted: "sorted_wrt date_less (month_days y m)"
  by (simp add: month_days_def sorted_wrt_map date_less_def)

lemma year_days_sorted: "sorted_wrt date_less (year_days y)"
  unfolding year_days_def
proof (rule sorted_wrt_concat_map)
  show "sorted_wrt (<) [1..12::int]" by (rule sorted_wrt_upto)
next
  fix x show "sorted_wrt date_less (month_days y x)" by (rule month_days_sorted)
next
  fix x z :: int and a b
  assume "x < z" "a \<in> set (month_days y x)" "b \<in> set (month_days y z)"
  then show "date_less a b" by (simp add: in_month_days date_less_def)
qed

lemma holiday_dates_subset: "set (holiday_dates env ds st) \<subseteq> set ds"
  by (induction ds arbitrary: st) auto

lemma holiday_dates_sorted:
  "sorted_wrt P ds \<Longrightarrow> sorted_wrt P (holiday_dates env ds st)"
proof (induction ds arbitrary: st)
  case Nil
  then show ?case by simp
next
  case (Cons d ds)
  have "\<forall>x \<in> set (holiday_dates env ds (snd (HolidayData_is_holiday env d st))). P d x"
    using Cons.prems holiday_dates_subset by fastforce
  then show ?case using Cons by simp
qed

lemma holiday_dates_local:
  "\<not> HAS_API env \<Longrightarrow>
   holiday_dates env ds st = filter (\<lambda>d. fst (local_is_holiday d)) ds"
  by (induction ds arbitrary: st) (simp_all add: HolidayData_is_holiday_def)


lemma date_less_irrefl: "\<not> date_less d d"
  by (simp add: date_less_def)

lemma sorted_dates_distinct: "sorted_wrt date_less ds \<Longrightarrow> distinct ds"
  by (induction ds) (auto simp: date_less_irrefl)

lemma digit_vals:
  "digit 0 = CHR ''0''" "digit 1 = CHR ''1''" "digit 2 = CHR ''2''" "digit 3 = CHR ''3''"
  "digit 4 = CHR ''4''" "digit 5 = CHR ''5''" "digit 6 = CHR ''6''" "digit 7 = CHR ''7''"
  "digit 8 = CHR ''8''" "digit 9 = CHR ''9''"
  by (simp_all add: digit_def)

lemma digit_cases:
  assumes "0 \<le> a" "a < 10"
  shows "(a::int) = 0 \<or> a = 1 \<or> a = 2 \<or> a = 3 \<or> a = 4 \<or> a = 5 \<or> a = 6 \<or> a = 7 \<or> a = 8 \<or> a = 9"
    using assms by arith

lemma digit_inj:
  assumes "0 \<le> a" "a < 10" "0 \<le> b" "b < 10" "digit a = digit b"
  shows "a = b"
  using digit_cases [OF assms(1,2)] digit_cases [OF assms(3,4)] assms(5)
  by (elim disjE) (simp_all add: digit_vals)


lemma two_digits:
  fixes a :: int
  shows "a = 10 * (a div 10) + a mod 10"
  by simp

lemma small_mod: "0 \<le> (x::int) \<Longrightarrow> x < 10 \<Longrightarrow> x mod 10 = x"
  by simp

lemma pad2_inj:
  assumes "0 \<le> a" "a < 100" "0 \<le> b" "b < 100" "pad2 a = pad2 b"
  shows "a = b"
proof -
  have d: "digit (a div 10 mod 10) = digit (b div 10 mod 10)" "digit (a mod 10) = digit (b mod 10)"
    using assms(5) by (simp_all add: pad2_def)
  have hi: "a div 10 mod 10 = b div 10 mod 10"
    by (rule digit_inj [OF _ _ _ _ d(1)]) simp_all
  have lo: "a mod 10 = b mod 10"
    by (rule digit_inj [OF _ _ _ _ d(2)]) simp_all
  have "a div 10 < 10" "b div 10 < 10" "0 \<le> a div 10" "0 \<le> b div 10"
    using assms(1-4) by simp_all
  then have "a div 10 = b div 10" using hi by (simp add: small_mod)
  then show ?thesis using lo two_digits [of a] two_digits [of b] by simp
qed


lemma pad4_inj:
  assumes "0 \<le> a" "a < 10000" "0 \<le> b" "b < 10000" "pad4 a = pad4 b"
  shows "a = b"
proof -
  have d: "digit (a div 1000 mod 10) = digit (b div 1000 mod 10)"
    "digit (a div 100 mod 10) = digit (b div 100 mod 10)"
    "digit (a div 10 mod 10) = digit (b div 10 mod 10)"
    "digit (a mod 10) = digit (b mod 10)"
    using assms(5) by (simp_all add: pad4_def)
  have e1: "a div 1000 mod 10 = b div 1000 mod 10"
    by (rule digit_inj [OF _ _ _ _ d(1)]) simp_all
  have e2: "a div 100 mod 10 = b div 100 mod 10"
    by (rule digit_inj [OF _ _ _ _ d(2)]) simp_all
  have e3: "a div 10 mod 10 = b div 10 mod 10"
    by (rule digit_inj [OF _ _ _ _ d(3)]) simp_all
  have e4: "a mod 10 = b mod 10"
    by (rule digit_inj [OF _ _ _ _ d(4)]) simp_all
  have sa: "a div 100 = 10 * (a div 1000) + a div 100 mod 10"
  proof -
    have "a div 100 div 10 = a div 1000" by (simp add: div_mult2_eq [symmetric])
    then show ?thesis using two_digits [of "a div 100"] by metis
  qed
  have sb: "b div 100 = 10 * (b div 1000) + b div 100 mod 10"
  proof -
    have "b div 100 div 10 = b div 1000" by (simp add: div_mult2_eq [symmetric])
    then show ?thesis using two_digits [of "b div 100"] by metis
  qed
  have ta: "a div 10 = 10 * (a div 100) + a div 10 mod 10"
  proof -
    have "a div 10 div 10 = a div 100" by (simp add: div_mult2_eq [symmetric])
    then show ?thesis using two_digits [of "a div 10"] by metis
  qed
  have tb: "b div 10 = 10 * (b div 100) + b div 10 mod 10"
  proof -
    have "b div 10 div 10 = b div 100" by (simp add: div_mult2_eq [symmetric])
    then show ?thesis using two_digits [of "b div 10"] by metis
  qed
  have "a div 1000 < 10" "b div 1000 < 10" "0 \<le> a div 1000" "0 \<le> b div 1000"
    using assms(1-4) by simp_all
  then have "a div 1000 = b div 1000" using e1 by (simp add: small_mod)
  then have "a div 100 = b div 100" using e2 sa sb by simp
  then have "a div 10 = b div 10" using e3 ta tb by simp
  then show ?thesis using e4 two_digits [of a] two_digits [of b] by simp
qed

lemma digits3_inj:
  assumes "0 \<le> a" "a < 1000" "0 \<le> b" "b < 1000"
    and "[digit (a div 100 mod 10), digit (a div 10 mod 10), digit (a mod 10)]
       = [digit (b div 100 mod 10), digit (b div 10 mod 10), digit (b mod 10)]"
  shows "a = b"
proof -
  have d: "digit (a div 100 mod 10) = digit (b div 100 mod 10)"
    "digit (a div 10 mod 10) = digit (b div 10 mod 10)"
    "digit (a mod 10) = digit (b mod 10)"
    using assms(5) by simp_all
  have e2: "a div 100 mod 10 = b div 100 mod 10"
    by (rule digit_inj [OF _ _ _ _ d(1)]) simp_all
  have e3: "a div 10 mod 10 = b div 10 mod 10"
    by (rule digit_inj [OF _ _ _ _ d(2)]) simp_all
  have e4: "a mod 10 = b mod 10"
    by (rule digit_inj [OF _ _ _ _ d(3)]) simp_all
  have ta: "a div 10 = 10 * (a div 100) + a div 10 mod 10"
  proof -
    have "a div 10 div 10 = a div 100" by (simp add: div_mult2_eq [symmetric])
    then show ?thesis using two_digits [of "a div 10"] by metis
  qed
  have tb: "b div 10 = 10 * (b div 100) + b div 10 mod 10"
  proof -
    have "b div 10 div 10 = b div 100" by (simp add: div_mult2_eq [symmetric])
    then show ?thesis using two_digits [of "b div 10"] by metis
  qed
  have "a div 100 < 10" "b div 100 < 10" "0 \<le> a div 100" "0 \<le> b div 100"
    using assms(1-4) by simp_all
  then have "a div 100 = b div 100" using e2 by (simp add: small_mod)
  then have "a div 10 = b div 10" using e3 ta tb by simp
  then show ?thesis using e4 two_digits [of a] two_digits [of b] by simp
qed

lemma year_digits_length:
  "length (year_digits y) = (if y < 10 then 1 else if y < 100 then 2 else if y < 1000 then 3 else 4)"
  by (simp add: year_digits_def pad2_def pad4_def)

lemma year_digits_inj:
  assumes "0 \<le> a" "a < 10000" "0 \<le> b" "b < 10000" "year_digits a = year_digits b"
  shows "a = b"
proof -
  have len: "length (year_digits a) = length (year_digits b)" using assms(5) by simp
  consider (one) "a < 10" | (two) "10 \<le> a" "a < 100" | (three) "100 \<le> a" "a < 1000"
    | (four) "1000 \<le> a"
    by linarith
  then show ?thesis
  proof cases
    case one
    then have b: "b < 10" using len by (simp add: year_digits_length split: if_splits)
    then have "digit a = digit b" using assms(5) one by (simp add: year_digits_def)
    then show ?thesis using assms(1,3) one b by (intro digit_inj)
  next
    case two
    then have b: "10 \<le> b" "b < 100"
      using len by (simp_all add: year_digits_length split: if_splits)
    then have "pad2 a = pad2 b" using assms(5) two by (simp add: year_digits_def)
    then show ?thesis using assms(1,3) two b by (intro pad2_inj)
  next
    case three
    then have b: "100 \<le> b" "b < 1000"
      using len by (simp_all add: year_digits_length split: if_splits)
    then have "[digit (a div 100 mod 10), digit (a div 10 mod 10), digit (a mod 10)]
       = [digit (b div 100 mod 10), digit (b div 10 mod 10), digit (b mod 10)]"
      using assms(5) three by (simp add: year_digits_def)
    then show ?thesis using assms(1,3) three b by (intro digits3_inj)
  next
    case four
    then have b: "1000 \<le> b"
      using len by (simp_all add: year_digits_length split: if_splits)
    then have "pad4 a = pad4 b" using assms(5) four by (simp add: year_digits_def)
    then show ?thesis using assms(1-4) by (intro pad4_inj)
  qed
qed

lemma strftime_inj:
  assumes "valid_date a" "valid_date b" "strftime a = strftime b"
  shows "a = b"
proof -
  have dm: "days_in_month y m \<le> 31" for y m by (simp add: days_in_month_def)
  let ?ra = "''-'' @ pad2 (month a) @ ''-'' @ pad2 (day a)"
  let ?rb = "''-'' @ pad2 (month b) @ ''-'' @ pad2 (day b)"
  have eq: "year_digits (year a) @ ?ra = year_digits (year b) @ ?rb"
    using assms(3) by (simp add: strftime_def)
  have "length ?ra = length ?rb" by (simp add: pad2_def)
  then have parts: "year_digits (year a) = year_digits (year b) \<and> ?ra = ?rb"
    using eq by (rule append_eq_append_conv [THEN iffD1, OF disjI2])
  then have p: "year_digits (year a) = year_digits (year b)"
    "pad2 (month a) = pad2 (month b)" "pad2 (day a) = pad2 (day b)"
    by (simp_all add: pad2_def)
  have ra: "0 \<le> year a" "year a < 10000" "0 \<le> month a" "month a < 100"
    "0 \<le> day a" "day a < 100"
    using assms(1) dm [of "year a" "month a"] by (simp_all add: valid_date_def)
  have rb: "0 \<le> year b" "year b < 10000" "0 \<le> month b" "month b < 100"
    "0 \<le> day b" "day b < 100"
    using assms(2) dm [of "year b" "month b"] by (simp_all add: valid_date_def)
  have "year a = year b" by (rule year_digits_inj [OF ra(1,2) rb(1,2) p(1)])
  moreover have "month a = month b" by (rule pad2_inj [OF ra(3,4) rb(3,4) p(2)])
  moreover have "day a = day b" by (rule pad2_inj [OF ra(5,6) rb(5,6) p(3)])
  ultimately show ?thesis by simp
qed

lemma strftime_short_year:
  "strftime \<lparr>year = 999, month = 12, day = 31\<rparr> = ''999-12-31''"
  by (simp add: cal_defs)

lemma strptime_valid: "strptime s = Some d \<Longrightarrow> valid_date d"
  by (auto simp: strptime_def Let_def make_date_def split: if_splits option.splits sum.splits)

lemma table_keys_are_dates:
  "list_all (\<lambda>kv. case strptime (fst kv) of
                     Some d \<Rightarrow> strftime d = fst kv \<and> year d = 2026
                   | None \<Rightarrow> False) holidays_2026"
  by (simp add: holidays_2026_def parse_defs cal_defs)

lemma table_key_date:
  assumes "map_of holidays_2026 s = Some b"
  shows "\<exists>d. d \<in> set (year_days 2026) \<and> strftime d = s"
proof -
  have mem: "(s, b) \<in> set holidays_2026" using assms by (rule map_of_SomeD)
  have "\<forall>kv \<in> set holidays_2026.
      case strptime (fst kv) of Some d \<Rightarrow> strftime d = fst kv \<and> year d = 2026 | None \<Rightarrow> False"
    using table_keys_are_dates by (simp add: list_all_iff)
  then have "case strptime (fst (s, b)) of
      Some d \<Rightarrow> strftime d = fst (s, b) \<and> year d = 2026 | None \<Rightarrow> False"
    using mem by (rule bspec)
  then obtain d where d: "strptime s = Some d" "strftime d = s" "year d = 2026"
    by (auto split: option.splits)
  have "valid_date d" using d(1) by (rule strptime_valid)
  then have "d \<in> set (year_days 2026)"
    using d(3) by (simp add: in_year_days valid_date_def)
  then show ?thesis using d(2) by blast
qed

lemma year_days_length: "length (year_days y) = (if is_leap y then 366 else 365)"
proof -
  have "[1..12] = [1, 2, 3, 4, 5, 6, 7, 8, 9, 10, 11, 12 :: int]"
    by (simp add: upto_rec1 [of 1 12])
  then show ?thesis
    by (simp add: year_days_def month_days_def days_in_month_def)
qed

lemma local_holiday_set:
  "set (map strftime (filter (\<lambda>d. fst (local_is_holiday d)) (year_days y))) =
     {s. \<exists>t. HolidayData_holidays y = Some t \<and> t s = Some True}
     \<union> {s. \<exists>d. s = strftime d \<and> d \<in> set (year_days y) \<and> (weekday d = 5 \<or> weekday d = 6)
            \<and> (\<forall>t. HolidayData_holidays y = Some t \<longrightarrow> t (strftime d) \<noteq> Some False)}"
  (is "?L = ?A \<union> ?B")
proof (intro set_eqI iffI)
  fix s assume "s \<in> ?L"
  then obtain d where d: "d \<in> set (year_days y)" "fst (local_is_holiday d)" "s = strftime d"
    by auto
  have yd: "year d = y" using d(1) by (simp add: in_year_days)
  show "s \<in> ?A \<union> ?B"
  proof (cases "HolidayData_holidays y")
    case None
    then show ?thesis using d yd
      by (auto simp: local_is_holiday_def split: if_splits)
  next
    case (Some t)
    then show ?thesis using d yd
      by (cases "t (strftime d)") (auto simp: local_is_holiday_def split: if_splits)
  qed
next
  fix s assume "s \<in> ?A \<union> ?B"
  then consider (a) "s \<in> ?A" | (b) "s \<in> ?B" by blast
  then show "s \<in> ?L"
  proof cases
    case a
    then obtain t where t: "HolidayData_holidays y = Some t" "t s = Some True" by blast
    have y: "y = 2026" and tt: "t = map_of holidays_2026"
      using t(1) by (auto simp: HolidayData_holidays_def split: if_splits)
    obtain d where d: "d \<in> set (year_days 2026)" "strftime d = s"
      using table_key_date t(2) tt by blast
    have "year d = 2026" using d(1) by (simp add: in_year_days)
    then have "fst (local_is_holiday d)"
      using t d(2) y by (simp add: local_is_holiday_def)
    then show ?thesis using d y by auto
  next
    case b
    then obtain d where d: "s = strftime d" "d \<in> set (year_days y)"
      "weekday d = 5 \<or> weekday d = 6"
      "\<forall>t. HolidayData_holidays y = Some t \<longrightarrow> t (strftime d) \<noteq> Some False"
      by blast
    have yd: "year d = y" using d(2) by (simp add: in_year_days)
    have "fst (local_is_holiday d)"
    proof (cases "HolidayData_holidays y")
      case None
      then show ?thesis using d(3) yd by (auto simp: local_is_holiday_def)
    next
      case (Some t)
      then show ?thesis using d(3,4) yd
        by (cases "t (strftime d)") (auto simp: local_is_holiday_def)
    qed
    then show ?thesis using d(1,2) by auto
  qed
qed

text \<open>
  Claim C4, as amended. For every year from 1 to 9998, whatever the platform and the
  state, \<^verbatim>\<open>get_holidays\<close> returns a list (no exception): the date strings of the days
  classified as holidays among all days of the year, each day classified once, in calendar
  order; the year has 365 or 366 days; the returned dates are strictly ascending and the
  strings have no duplicates. With the remote path disabled (the client module absent),
  the returned set is the set of table keys of the year flagged true together with the
  Saturdays and Sundays of the year that the table does not flag false.
\<close>

theorem get_holidays_full_year:
  assumes "1 \<le> y" and "y \<le> 9998"
  shows "fst (HolidayData_get_holidays env y st) =
           Inr (map strftime (holiday_dates env (year_days y) (prefetch_state env y st)))
       \<and> length (year_days y) = (if is_leap y then 366 else 365)
       \<and> sorted_wrt date_less (holiday_dates env (year_days y) (prefetch_state env y st))
       \<and> distinct (map strftime (holiday_dates env (year_days y) (prefetch_state env y st)))
       \<and> (\<not> HAS_API env \<longrightarrow>
            holiday_dates env (year_days y) (prefetch_state env y st)
              = filter (\<lambda>d. fst (local_is_holiday d)) (year_days y)
            \<and> set (map strftime (holiday_dates env (year_days y) (prefetch_state env y st))) =
                {s. \<exists>t. HolidayData_holidays y = Some t \<and> t s = Some True}
                \<union> {s. \<exists>d. s = strftime d \<and> d \<in> set (year_days y)
                        \<and> (weekday d = 5 \<or> weekday d = 6)
                        \<and> (\<forall>t. HolidayData_holidays y = Some t
                               \<longrightarrow> t (strftime d) \<noteq> Some False)})"
proof -
  let ?ds = "holiday_dates env (year_days y) (prefetch_state env y st)"
  have result: "fst (HolidayData_get_holidays env y st) = Inr (map strftime ?ds)"
    using assms by (simp add: get_holidays_year_days)
  have ascending: "sorted_wrt date_less ?ds"
    by (rule holiday_dates_sorted [OF year_days_sorted])
  have valid: "valid_date d" if "d \<in> set ?ds" for d
  proof -
    have "d \<in> set (year_days y)" using that holiday_dates_subset by blast
    then show ?thesis using assms year_days_valid [of y d] by simp
  qed
  have "distinct ?ds" using ascending by (rule sorted_dates_distinct)
  moreover have "inj_on strftime (set ?ds)"
    by (rule inj_onI) (simp add: strftime_inj valid)
  ultimately have no_dup: "distinct (map strftime ?ds)"
    by (simp add: distinct_map)
  have local: "?ds = filter (\<lambda>d. fst (local_is_holiday d)) (year_days y)"
    if "\<not> HAS_API env"
    using that by (rule holiday_dates_local)
  show ?thesis
    using result ascending no_dup local local_holiday_set [of y]
    by (simp add: year_days_length)
qed

text \<open>The year 2026 with the client module absent: National Day, a Thursday flagged
  true in the table, is in the list; Saturday 2026-02-28, flagged false, is not.\<close>

theorem get_holidays_full_year_witness:
  "\<exists>hs. fst (HolidayData_get_holidays env_absent 2026 st0) = Inr hs
      \<and> distinct hs \<and> ''2026-10-01'' \<in> set hs \<and> ''2026-02-28'' \<notin> set hs"
proof -
  let ?hs = "map strftime
      (holiday_dates env_absent (year_days 2026) (prefetch_state env_absent 2026 st0))"
  let ?A = "{s. \<exists>t. HolidayData_holidays 2026 = Some t \<and> t s = Some True}"
  let ?B = "{s. \<exists>d. s = strftime d \<and> d \<in> set (year_days 2026)
              \<and> (weekday d = 5 \<or> weekday d = 6)
              \<and> (\<forall>t. HolidayData_holidays 2026 = Some t \<longrightarrow> t (strftime d) \<noteq> Some False)}"
  have lo: "(1::int) \<le> 2026" and hi: "(2026::int) \<le> 9998" by simp_all
  have absent: "\<not> HAS_API env_absent" by (simp add: env_absent_def)
  note full = get_holidays_full_year [OF lo hi, of env_absent st0]
  have res: "fst (HolidayData_get_holidays env_absent 2026 st0) = Inr ?hs"
    using full by blast
  have dis: "distinct ?hs" using full by blast
  have seteq: "set ?hs = ?A \<union> ?B" using full absent by blast
  have t: "HolidayData_holidays 2026 = Some (map_of holidays_2026)"
    by (simp add: HolidayData_holidays_def)
  have oct: "map_of holidays_2026 ''2026-10-01'' = Some True"
    by (simp add: holidays_2026_def)
  have feb: "map_of holidays_2026 ''2026-02-28'' = Some False"
    by (simp add: holidays_2026_def)
  have "''2026-10-01'' \<in> ?A" using t oct by blast
  then have inl: "''2026-10-01'' \<in> set ?hs" using seteq by blast
  have "''2026-02-28'' \<notin> ?A" using t feb by simp
  moreover have "''2026-02-28'' \<notin> ?B"
  proof
    assume "''2026-02-28'' \<in> ?B"
    then obtain d where "''2026-02-28'' = strftime d"
      "\<forall>t. HolidayData_holidays 2026 = Some t \<longrightarrow> t (strftime d) \<noteq> Some False"
      by blast
    then show False using t feb by metis
  qed
  ultimately have out: "''2026-02-28'' \<notin> set ?hs" using seteq by blast
  from res dis inl out show ?thesis by blast
qed

text \<open>
  Claim C4 as stated fails for some years. The year 10000 is no year of a \<^verbatim>\<open>date\<close>: the
  constructor raises \<^verbatim>\<open>ValueError\<close> and no list is returned. In the year 9999 every day is
  classified, and the step past 9999-12-31 raises \<^verbatim>\<open>OverflowError\<close>.
\<close>

theorem get_holidays_raises:
  "fst (HolidayData_get_holidays env_absent 10000 st0) = Inl ValueError
   \<and> fst (HolidayData_get_holidays env_absent 9999 st0) = Inl OverflowError"
  by (simp add: get_holidays_last_year get_holidays_bad_year)

end
